theory Spec2Isabelle
  imports Complex_Main "HOL-Library.Word"
begin

unbundle bit_operations_syntax

section \<open>JavaScript values used by the application\<close>

text \<open>
  A JavaScript string is a sequence of UTF-16 code units. The literals of the source are
  ASCII, so \<open>lit\<close> maps each character of an Isabelle literal to its code unit.
\<close>

type_synonym js_string = "16 word list"

definition lit :: "string \<Rightarrow> js_string" where
  "lit s = map of_char s"

text \<open>
  A JavaScript number that reaches a \<open>Float32Array\<close> in this program is either a real
  value or \<open>NaN\<close> (the result of arithmetic on \<open>undefined\<close>). Every value the decoder
  computes has the form \<open>k / 32768\<close> with \<open>k\<close> a 16-bit integer; such a value is
  representable exactly both as a double and as a 32-bit float, so neither the division
  nor the store into the \<open>Float32Array\<close> rounds, and \<open>real\<close> is an exact model.
\<close>

datatype number = Num real | NaN

text \<open>
  The exceptions the platform raises in the code paths below: \<open>RangeError\<close> (ECMAScript,
  typed-array construction), \<open>NotSupportedError\<close> and \<open>IndexSizeError\<close> (Web Audio),
  \<open>InvalidCharacterError\<close> (\<open>atob\<close>).
\<close>

datatype platform_error = RangeError | NotSupportedError | IndexSizeError | InvalidCharacterError

section \<open>Typed arrays\<close>

text \<open>
  \<open>new Int16Array(buffer)\<close> views the bytes of an \<open>ArrayBuffer\<close> as 16-bit integers in
  platform byte order, which is little-endian on every platform that runs a browser.
  ECMAScript makes the constructor throw a \<open>RangeError\<close> when the byte length of the
  buffer is not a multiple of the element size 2. The \<open>Uint8Array\<close> that
  \<open>decodeBase64\<close> returns owns its whole buffer, so \<open>data.buffer\<close> has exactly the
  bytes of \<open>data\<close>.
\<close>

fun int16_view :: "8 word list \<Rightarrow> 16 word list" where
  "int16_view (lo # hi # rest) = (push_bit 8 (ucast hi) OR ucast lo) # int16_view rest"
| "int16_view _ = []"

definition Int16Array :: "8 word list \<Rightarrow> platform_error + 16 word list" where
  "Int16Array buffer =
     (if length buffer mod 2 \<noteq> 0 then Inl RangeError else Inr (int16_view buffer))"

text \<open>
  Reading an element: the signed value inside the array, \<open>undefined\<close> (here \<open>None\<close>)
  outside it.
\<close>

definition int16_get :: "16 word list \<Rightarrow> nat \<Rightarrow> int option" where
  "int16_get a k = (if k < length a then Some (sint (a ! k)) else None)"

text \<open>The division \<open>x / 32768.0\<close>: \<open>undefined\<close> converts to \<open>NaN\<close>.\<close>

definition div_32768 :: "int option \<Rightarrow> number" where
  "div_32768 x = (case x of None \<Rightarrow> NaN | Some k \<Rightarrow> Num (real_of_int k / 32768))"

text \<open>
  Writing an element of a \<open>Float32Array\<close>: a write at an index outside the array is
  ignored (it neither extends the array nor throws).
\<close>

definition float32_set :: "number list \<Rightarrow> nat \<Rightarrow> number \<Rightarrow> number list" where
  "float32_set a i v = (if i < length a then a[i := v] else a)"

section \<open>The Web Audio buffer\<close>

text \<open>
  An audio context has a sample rate and the nominal ranges of the implementation:
  \<open>ctx_supports ctx c r\<close> tells whether it accepts a buffer of \<open>c\<close> channels at rate
  \<open>r\<close>. The Web Audio API leaves the ranges to the implementation and requires at least
  32 channels and the rates from 8000 to 96000.
\<close>

record AudioContext =
  ctx_sampleRate :: nat
  ctx_supports :: "nat \<Rightarrow> nat \<Rightarrow> bool"

record AudioBuffer =
  numberOfChannels :: nat
  buf_length :: nat
  buf_sampleRate :: nat
  channelData :: "number list list"

text \<open>
  An argument of WebIDL type \<open>unsigned long\<close> is converted from a JavaScript number by
  dropping the fraction and reducing modulo \<open>2 ^ 32\<close>. The numbers converted here are
  never negative.
\<close>

definition unsigned_long :: "real \<Rightarrow> nat" where
  "unsigned_long x = nat \<lfloor>x\<rfloor> mod 2 ^ 32"

text \<open>
  \<open>ctx.createBuffer(numberOfChannels, length, sampleRate)\<close>: the Web Audio API requires
  a \<open>NotSupportedError\<close> when an argument is zero or outside its nominal range, and
  otherwise returns a buffer of \<open>numberOfChannels\<close> zero-filled \<open>Float32Array\<close>s of
  \<open>length\<close> frames each. Running out of memory is not modelled.
\<close>

definition createBuffer ::
    "AudioContext \<Rightarrow> nat \<Rightarrow> real \<Rightarrow> nat \<Rightarrow> platform_error + AudioBuffer" where
  "createBuffer ctx numChannels len sampleRate =
     (let c = numChannels mod 2 ^ 32; l = unsigned_long len in
      if c = 0 \<or> l = 0 \<or> sampleRate = 0 \<or> \<not> ctx_supports ctx c sampleRate
      then Inl NotSupportedError
      else Inr \<lparr>numberOfChannels = c, buf_length = l, buf_sampleRate = sampleRate,
                channelData = replicate c (replicate l (Num 0))\<rparr>)"

text \<open>
  \<open>buffer.getChannelData(channel)\<close> returns the array of that channel and throws an
  \<open>IndexSizeError\<close> for a channel the buffer does not have. The array is shared with
  the buffer: \<open>setChannelData\<close> writes the mutated array back.
\<close>

definition getChannelData :: "AudioBuffer \<Rightarrow> nat \<Rightarrow> platform_error + number list" where
  "getChannelData buffer channel =
     (if channel < numberOfChannels buffer \<and> channel < length (channelData buffer)
      then Inr (channelData buffer ! channel) else Inl IndexSizeError)"

definition setChannelData :: "AudioBuffer \<Rightarrow> nat \<Rightarrow> number list \<Rightarrow> AudioBuffer" where
  "setChannelData buffer channel a =
     buffer\<lparr>channelData := (channelData buffer)[channel := a]\<rparr>"

section \<open>decodePcmData\<close>

text \<open>
  The inner loop \<open>for (let i = 0; i < frameCount; i++)\<close>. \<open>frameCount\<close> is the
  quotient of two integers as a JavaScript number, so it may have a fraction; the
  comparison is on numbers.
\<close>

function frame_loop ::
    "16 word list \<Rightarrow> nat \<Rightarrow> real \<Rightarrow> nat \<Rightarrow> nat \<Rightarrow> number list \<Rightarrow> number list" where
  "frame_loop dataInt16 numChannels frameCount channel i channelData' =
     (if real i < frameCount
      then frame_loop dataInt16 numChannels frameCount channel (i + 1)
             (float32_set channelData' i
                (div_32768 (int16_get dataInt16 (i * numChannels + channel))))
      else channelData')"
  by pat_completeness auto
termination
proof (relation "measure (\<lambda>(d, n, fc, c, i, a). nat \<lceil>fc\<rceil> - i)")
  show "wf (measure (\<lambda>(d, n, fc, c, i, a). nat \<lceil>fc :: real\<rceil> - i))"
    by simp
next
  fix dataInt16 :: "16 word list" and numChannels :: nat and frameCount :: real
    and channel i :: nat and channelData' :: "number list"
  assume lt: "real i < frameCount"
  have "int i < \<lceil>frameCount\<rceil>"
    using lt by (simp add: less_ceiling_iff)
  then have "i < nat \<lceil>frameCount\<rceil>"
    by linarith
  then show "((dataInt16, numChannels, frameCount, channel, i + 1,
                float32_set channelData' i
                  (div_32768 (int16_get dataInt16 (i * numChannels + channel)))),
               (dataInt16, numChannels, frameCount, channel, i, channelData'))
             \<in> measure (\<lambda>(d, n, fc, c, i, a). nat \<lceil>fc\<rceil> - i)"
    by simp
qed

text \<open>The outer loop \<open>for (let channel = 0; channel < numChannels; channel++)\<close>.\<close>

function channel_loop ::
    "16 word list \<Rightarrow> nat \<Rightarrow> real \<Rightarrow> nat \<Rightarrow> AudioBuffer \<Rightarrow> platform_error + AudioBuffer" where
  "channel_loop dataInt16 numChannels frameCount channel buffer =
     (if channel < numChannels
      then (case getChannelData buffer channel of
              Inl e \<Rightarrow> Inl e
            | Inr channelData' \<Rightarrow>
                channel_loop dataInt16 numChannels frameCount (channel + 1)
                  (setChannelData buffer channel
                     (frame_loop dataInt16 numChannels frameCount channel 0 channelData')))
      else Inr buffer)"
  by pat_completeness auto
termination
  by (relation "measure (\<lambda>(d, n, fc, c, b). n - c)") auto

text \<open>
  \<open>decodePcmData(data, ctx, sampleRate, numChannels)\<close>. With \<open>numChannels = 0\<close> the
  quotient \<open>dataInt16.length / numChannels\<close> is \<open>Infinity\<close> or \<open>NaN\<close>, not a real
  number; \<open>createBuffer\<close> then rejects the channel count 0 whatever the length, so
  that case is written out before the division.
\<close>

definition decodePcmData ::
    "8 word list \<Rightarrow> AudioContext \<Rightarrow> nat \<Rightarrow> nat \<Rightarrow> platform_error + AudioBuffer" where
  "decodePcmData data ctx sampleRate numChannels =
     (case Int16Array data of
        Inl e \<Rightarrow> Inl e
      | Inr dataInt16 \<Rightarrow>
          if numChannels = 0 then Inl NotSupportedError
          else
            let frameCount = real (length dataInt16) / real numChannels in
            (case createBuffer ctx numChannels frameCount sampleRate of
               Inl e \<Rightarrow> Inl e
             | Inr buffer \<Rightarrow> channel_loop dataInt16 numChannels frameCount 0 buffer))"

section \<open>Strings: trim and atob\<close>

text \<open>
  \<open>String.prototype.trim\<close> removes the ECMAScript white space and line terminator
  code units from both ends: TAB, LF, VT, FF, CR, SPACE, NBSP, U+1680, U+2000 to U+200A,
  U+2028, U+2029, U+202F, U+205F, U+3000 and U+FEFF.
\<close>

definition is_js_whitespace :: "16 word \<Rightarrow> bool" where
  "is_js_whitespace c \<longleftrightarrow>
     c = 0x09 \<or> c = 0x0A \<or> c = 0x0B \<or> c = 0x0C \<or> c = 0x0D \<or> c = 0x20 \<or> c = 0xA0 \<or>
     c = 0x1680 \<or> (0x2000 \<le> c \<and> c \<le> 0x200A) \<or> c = 0x2028 \<or> c = 0x2029 \<or>
     c = 0x202F \<or> c = 0x205F \<or> c = 0x3000 \<or> c = 0xFEFF"

definition trim :: "js_string \<Rightarrow> js_string" where
  "trim s = rev (dropWhile is_js_whitespace (rev (dropWhile is_js_whitespace s)))"

text \<open>
  \<open>window.atob\<close> is the forgiving-base64 decode of the HTML standard: ASCII white space
  is removed; when the length is then a multiple of 4, one or two trailing \<open>=\<close> are
  removed; a length that leaves remainder 1 modulo 4, or a code unit outside the base64
  alphabet, is a failure (\<open>InvalidCharacterError\<close>); the remaining code units are
  decoded six bits at a time, the bits left over at the end being dropped. The result is
  a string with one code unit (below 256) per byte.
\<close>

definition is_ascii_whitespace :: "16 word \<Rightarrow> bool" where
  "is_ascii_whitespace c \<longleftrightarrow> c = 0x09 \<or> c = 0x0A \<or> c = 0x0C \<or> c = 0x0D \<or> c = 0x20"

definition base64_value :: "16 word \<Rightarrow> nat option" where
  "base64_value c =
     (let n = unat c in
      if 65 \<le> n \<and> n \<le> 90 then Some (n - 65)
      else if 97 \<le> n \<and> n \<le> 122 then Some (n - 71)
      else if 48 \<le> n \<and> n \<le> 57 then Some (n + 4)
      else if n = 43 then Some 62
      else if n = 47 then Some 63
      else None)"

definition strip_padding :: "js_string \<Rightarrow> js_string" where
  "strip_padding s =
     (if length s mod 4 = 0 \<and> s \<noteq> [] \<and> last s = 0x3D
      then (let s' = butlast s in if s' \<noteq> [] \<and> last s' = 0x3D then butlast s' else s')
      else s)"

fun sextets :: "js_string \<Rightarrow> nat list option" where
  "sextets [] = Some []"
| "sextets (c # cs) =
     (case base64_value c of
        None \<Rightarrow> None
      | Some v \<Rightarrow> (case sextets cs of None \<Rightarrow> None | Some vs \<Rightarrow> Some (v # vs)))"

fun decode_groups :: "nat list \<Rightarrow> nat list" where
  "decode_groups (a # b # c # d # rest) =
     (let n = ((a * 64 + b) * 64 + c) * 64 + d
      in n div 65536 # n div 256 mod 256 # n mod 256 # decode_groups rest)"
| "decode_groups [a, b, c] = (let n = (a * 64 + b) * 64 + c in [n div 1024, n div 4 mod 256])"
| "decode_groups [a, b] = [(a * 64 + b) div 16]"
| "decode_groups _ = []"

definition atob :: "js_string \<Rightarrow> platform_error + js_string" where
  "atob encoded =
     (let s = strip_padding (filter (\<lambda>c. \<not> is_ascii_whitespace c) encoded) in
      if length s mod 4 = 1 then Inl InvalidCharacterError
      else (case sextets s of
              None \<Rightarrow> Inl InvalidCharacterError
            | Some vs \<Rightarrow> Inr (map of_nat (decode_groups vs))))"

section \<open>decodeBase64\<close>

text \<open>
  A write into a \<open>Uint8Array\<close> keeps the low eight bits of the value and is ignored
  outside the array. The loop \<open>for (let i = 0; i < len; i++)\<close> reads
  \<open>binaryString.charCodeAt(i)\<close> only for \<open>i\<close> below the length of the string.
\<close>

definition uint8_set :: "8 word list \<Rightarrow> nat \<Rightarrow> 16 word \<Rightarrow> 8 word list" where
  "uint8_set a i v = (if i < length a then a[i := ucast v] else a)"

function bytes_loop :: "js_string \<Rightarrow> nat \<Rightarrow> nat \<Rightarrow> 8 word list \<Rightarrow> 8 word list" where
  "bytes_loop binaryString len i bytes =
     (if i < len
      then bytes_loop binaryString len (i + 1) (uint8_set bytes i (binaryString ! i))
      else bytes)"
  by pat_completeness auto
termination
  by (relation "measure (\<lambda>(s, len, i, bytes). len - i)") auto

definition decodeBase64 :: "js_string \<Rightarrow> platform_error + 8 word list" where
  "decodeBase64 base64 =
     (case atob base64 of
        Inl e \<Rightarrow> Inl e
      | Inr binaryString \<Rightarrow>
          let len = length binaryString;
              bytes = replicate len 0
          in Inr (bytes_loop binaryString len 0 bytes))"

section \<open>Emotions and voices\<close>

datatype Emotion = Happy | Sad | Fear | Frightened | Angry | Excited

datatype Voice = Kore | Yadu

record EmotionOption =
  id_e :: Emotion
  label :: js_string
  promptPrefix :: js_string

definition EMOTIONS :: "EmotionOption list" where
  "EMOTIONS =
     [\<lparr>id_e = Happy, label = lit ''Happy'', promptPrefix = lit ''Say cheerfully''\<rparr>,
      \<lparr>id_e = Sad, label = lit ''Sad'', promptPrefix = lit ''Say mournfully''\<rparr>,
      \<lparr>id_e = Fear, label = lit ''Fearful'', promptPrefix = lit ''Say with fear''\<rparr>,
      \<lparr>id_e = Frightened, label = lit ''Frightened'',
        promptPrefix = lit ''Say in a frightened tone''\<rparr>,
      \<lparr>id_e = Angry, label = lit ''Angry'', promptPrefix = lit ''Say angrily''\<rparr>,
      \<lparr>id_e = Excited, label = lit ''Excited'', promptPrefix = lit ''Say excitedly''\<rparr>]"

section \<open>The speech service\<close>

text \<open>
  The request passed to \<open>ai.models.generateContent\<close>: the fixed model name, the prompt
  as the only part of the only content, the audio response modality (constant), the
  speaking rate and the voice; \<open>req_apiKey\<close> is the key the client was built with.
\<close>

record SpeechRequest =
  req_apiKey :: js_string
  req_model :: js_string
  req_prompt :: js_string
  req_speakingRate :: real
  req_voiceName :: Voice

text \<open>The response, with each optional member as an option.\<close>

record Blob =
  blob_data :: "js_string option"

record Part =
  inlineData :: "Blob option"

record Content =
  parts :: "Part list option"

record Candidate =
  content :: "Content option"

record GenerateContentResponse =
  candidates :: "Candidate list option"

text \<open>
  A thrown value, as the \<open>catch\<close> clause tells them apart: an \<open>Error\<close> instance with
  its message (the \<open>throw new Error(...)\<close> of the source, and the errors of the
  service client), an exception of the platform (\<open>RangeError\<close> and \<open>DOMException\<close> are
  \<open>Error\<close> instances; the wording of their message is the browser's), or any other
  value, such as a string, given here by its text.
\<close>

datatype thrown = Error js_string | PlatformError platform_error | Other js_string

text \<open>
  What the handler reads from outside the component: \<open>process.env.API_KEY\<close>, the remote
  service (the awaited call resolves with a response or rejects with a thrown value), the
  browser's message text for each platform exception, and the nominal ranges of the
  browser's audio contexts.
\<close>

record Environment =
  API_KEY :: "js_string option"
  generateContent :: "SpeechRequest \<Rightarrow> thrown + GenerateContentResponse"
  platformMessage :: "platform_error \<Rightarrow> js_string"
  supports :: "nat \<Rightarrow> nat \<Rightarrow> bool"

section \<open>The component state and handleGenerateSpeech\<close>

record AppState =
  inputText :: js_string
  selectedEmotion :: Emotion
  selectedVoice :: Voice
  speakingRate :: real
  isLoading :: bool
  error :: "js_string option"
  audioBuffer :: "AudioBuffer option"
  audioContextRef :: "AudioContext option"

text \<open>Element 0 of an array under optional chaining: \<open>undefined\<close> for an empty array.\<close>

definition first_element :: "'a list \<Rightarrow> 'a option" where
  "first_element xs = (case xs of [] \<Rightarrow> None | x # _ \<Rightarrow> Some x)"

text \<open>\<open>response.candidates?.[0]?.content?.parts?.[0]?.inlineData?.data\<close>\<close>

definition inline_payload :: "GenerateContentResponse \<Rightarrow> js_string option" where
  "inline_payload response =
     Option.bind (candidates response) (\<lambda>cs.
     Option.bind (first_element cs) (\<lambda>candidate.
     Option.bind (content candidate) (\<lambda>ct.
     Option.bind (parts ct) (\<lambda>ps.
     Option.bind (first_element ps) (\<lambda>part.
     Option.bind (inlineData part) blob_data)))))"

text \<open>\<open>EMOTIONS.find(e => e.id === selectedEmotion)\<close>\<close>

definition find_emotion :: "Emotion \<Rightarrow> EmotionOption option" where
  "find_emotion selected = find (\<lambda>e. id_e e = selected) EMOTIONS"

definition speech_request :: "js_string \<Rightarrow> js_string \<Rightarrow> AppState \<Rightarrow> SpeechRequest" where
  "speech_request apiKey prompt st =
     \<lparr>req_apiKey = apiKey, req_model = lit ''gemini-2.5-flash-preview-tts'',
      req_prompt = prompt, req_speakingRate = speakingRate st,
      req_voiceName = selectedVoice st\<rparr>"

text \<open>
  The body of the \<open>try\<close> block. It returns the thrown value, if any, the state as the
  block left it, and the requests sent to the service. Building the client with
  \<open>new GoogleGenAI\<close> only stores the key. The audio context is created, at
  24000 Hz (a rate every implementation must support, so the constructor does not throw),
  before the payload is decoded and stays in the ref when decoding throws.
\<close>

definition try_block ::
    "Environment \<Rightarrow> js_string \<Rightarrow> AppState \<Rightarrow> (thrown + unit) \<times> AppState \<times> SpeechRequest list" where
  "try_block env apiKey st =
     (case find_emotion (selectedEmotion st) of
        None \<Rightarrow> (Inl (Error (lit ''Invalid emotion selected.'')), st, [])
      | Some emotionOption \<Rightarrow>
          let prompt = promptPrefix emotionOption @ lit '': '' @ inputText st;
              request = speech_request apiKey prompt st
          in (case generateContent env request of
                Inl e \<Rightarrow> (Inl e, st, [request])
              | Inr response \<Rightarrow>
                  (case inline_payload response of
                     None \<Rightarrow>
                       (Inl (Error (lit ''No audio data received from the API.'')), st, [request])
                   | Some base64Audio \<Rightarrow>
                       if base64Audio = []
                       then (Inl (Error (lit ''No audio data received from the API.'')), st,
                             [request])
                       else
                         let ctx = (case audioContextRef st of
                                      None \<Rightarrow>
                                        \<lparr>ctx_sampleRate = 24000, ctx_supports = supports env\<rparr>
                                    | Some c \<Rightarrow> c);
                             st1 = st\<lparr>audioContextRef := Some ctx\<rparr>
                         in (case decodeBase64 base64Audio of
                               Inl e \<Rightarrow> (Inl (PlatformError e), st1, [request])
                             | Inr audioBytes \<Rightarrow>
                                 (case decodePcmData audioBytes ctx 24000 1 of
                                    Inl e \<Rightarrow> (Inl (PlatformError e), st1, [request])
                                  | Inr decodedBuffer \<Rightarrow>
                                      (Inr (), st1\<lparr>audioBuffer := Some decodedBuffer\<rparr>,
                                       [request]))))))"

text \<open>\<open>err instanceof Error ? err.message : 'An unknown error occurred.'\<close>\<close>

definition catch_message :: "Environment \<Rightarrow> thrown \<Rightarrow> js_string" where
  "catch_message env err =
     (case err of
        Error message \<Rightarrow> message
      | PlatformError e \<Rightarrow> platformMessage env e
      | Other v \<Rightarrow> lit ''An unknown error occurred.'')"

text \<open>The state while the request is awaited, after the three setters of lines 61 to 63.\<close>

definition in_flight :: "AppState \<Rightarrow> AppState" where
  "in_flight st = st\<lparr>isLoading := True, error := None, audioBuffer := None\<rparr>"

text \<open>
  \<open>handleGenerateSpeech\<close>: the final state and the requests sent to the service. A string
  is falsy when it is empty, \<open>process.env.API_KEY\<close> also when it is undefined.
\<close>

definition handleGenerateSpeech :: "Environment \<Rightarrow> AppState \<Rightarrow> AppState \<times> SpeechRequest list" where
  "handleGenerateSpeech env st =
     (if trim (inputText st) = [] \<or> API_KEY env = None \<or> API_KEY env = Some []
      then (st\<lparr>error := Some (lit ''Please enter text and ensure your API key is configured.'')\<rparr>,
            [])
      else
        (case try_block env (the (API_KEY env)) (in_flight st) of
           (Inl err, st', sent) \<Rightarrow>
             (st'\<lparr>error := Some (catch_message env err), isLoading := False\<rparr>, sent)
         | (Inr u, st', sent) \<Rightarrow> (st'\<lparr>isLoading := False\<rparr>, sent)))"

section \<open>The life cycle of the component\<close>

text \<open>The initial values of the \<open>useState\<close> and \<open>useRef\<close> calls, lines 45 to 53.\<close>

definition initial_state :: AppState where
  "initial_state =
     \<lparr>inputText = lit (''Hello! I can speak with different emotions. '' @
                         ''Try selecting one below and generate audio.''),
      selectedEmotion = Happy, selectedVoice = Kore, speakingRate = 1,
      isLoading = False, error = None, audioBuffer = None, audioContextRef = None\<rparr>"

text \<open>
  The states the component goes through. \<open>process.env.API_KEY\<close> is the same for the whole
  life of the page; the service, and the rest of the environment, may differ from one run
  to the next. The text area, the emotion and voice buttons and the speed slider are
  disabled while \<open>isLoading\<close> holds, and the button that calls \<open>handleGenerateSpeech\<close> is
  disabled while \<open>isLoading\<close> holds or the text is blank (\<open>disabled={isLoading ||
  !text.trim()}\<close>); \<open>playAudio\<close> changes none of the state variables. React applies the
  setter calls of one synchronous stretch of the handler together, so a run that passes
  the input check shows two states: the one of \<open>in_flight\<close> while the service call is
  awaited (rule \<open>awaiting\<close>), and the final one (rule \<open>generate\<close>).
\<close>

inductive lifecycle :: "js_string option \<Rightarrow> AppState \<Rightarrow> bool" for key where
  initial: "lifecycle key initial_state"
| setText: "lifecycle key st \<Longrightarrow> \<not> isLoading st \<Longrightarrow> lifecycle key (st\<lparr>inputText := t\<rparr>)"
| setSelectedEmotion:
    "lifecycle key st \<Longrightarrow> \<not> isLoading st \<Longrightarrow> lifecycle key (st\<lparr>selectedEmotion := e\<rparr>)"
| setSelectedVoice:
    "lifecycle key st \<Longrightarrow> \<not> isLoading st \<Longrightarrow> lifecycle key (st\<lparr>selectedVoice := v\<rparr>)"
| setSpeakingRate:
    "lifecycle key st \<Longrightarrow> \<not> isLoading st \<Longrightarrow> lifecycle key (st\<lparr>speakingRate := r\<rparr>)"
| awaiting:
    "lifecycle key st \<Longrightarrow> \<not> isLoading st \<Longrightarrow> trim (inputText st) \<noteq> [] \<Longrightarrow>
     key = Some k \<Longrightarrow> k \<noteq> [] \<Longrightarrow> lifecycle key (in_flight st)"
| generate:
    "lifecycle key st \<Longrightarrow> \<not> isLoading st \<Longrightarrow> trim (inputText st) \<noteq> [] \<Longrightarrow>
     API_KEY env = key \<Longrightarrow> lifecycle key (fst (handleGenerateSpeech env st))"

section \<open>Reference descriptions used in the claims\<close>

text \<open>
  The request states of the specification, and the ones a component state represents, read
  the way the component displays them: in flight while \<open>isLoading\<close> holds (the spinner
  of line 214), failed with a message while \<open>error\<close> is set (the panel of line 225),
  succeeded with a buffer while \<open>audioBuffer\<close> is set and \<open>isLoading\<close> does not hold (the
  panel of line 232), idle when none of the three variables is set.
\<close>

datatype RequestState = Idle | InFlight | Succeeded AudioBuffer | Failed js_string

definition request_states :: "AppState \<Rightarrow> RequestState list" where
  "request_states st =
     (if \<not> isLoading st \<and> error st = None \<and> audioBuffer st = None then [Idle] else []) @
     (if isLoading st then [InFlight] else []) @
     (case audioBuffer st of
        None \<Rightarrow> []
      | Some buffer \<Rightarrow> if isLoading st then [] else [Succeeded buffer]) @
     (case error st of None \<Rightarrow> [] | Some message \<Rightarrow> [Failed message])"

text \<open>
  The signed 16-bit little-endian integer at position \<open>k\<close> of a byte stream, written
  with arithmetic on the two bytes: the unsigned value \<open>lo + 256 * hi\<close>, read as two's
  complement.
\<close>

definition int16_le :: "8 word list \<Rightarrow> nat \<Rightarrow> int" where
  "int16_le bytes k =
     (let u = uint (bytes ! (2 * k)) + 256 * uint (bytes ! (2 * k + 1))
      in if u < 32768 then u else u - 65536)"

text \<open>
  De-interleaved samples: channel \<open>c\<close>, frame \<open>i\<close> holds the integer at position
  \<open>i * nc + c\<close> divided by 32768.
\<close>

definition decoded_channels :: "8 word list \<Rightarrow> nat \<Rightarrow> nat \<Rightarrow> number list list" where
  "decoded_channels bytes nc l =
     map (\<lambda>c. map (\<lambda>i. Num (real_of_int (int16_le bytes (i * nc + c)) / 32768)) [0..<l]) [0..<nc]"

text \<open>
  The effect of the outer loop from channel \<open>ch\<close> on: the channels from \<open>ch\<close> up to
  \<open>nc\<close> are run through the inner loop, the others are left as they are.
\<close>

definition fill_channels ::
    "16 word list \<Rightarrow> nat \<Rightarrow> real \<Rightarrow> nat \<Rightarrow> number list list \<Rightarrow> number list list" where
  "fill_channels d nc fc ch cs =
     map (\<lambda>c. if ch \<le> c \<and> c < nc then frame_loop d nc fc c 0 (cs ! c) else cs ! c)
       [0..<length cs]"

text \<open>
  The inline audio payload is absent: no candidates, no content in the first candidate,
  no parts in that content, or no inline data (or no data in it) in the first part.
\<close>

definition payload_absent :: "GenerateContentResponse \<Rightarrow> bool" where
  "payload_absent response =
     (case candidates response of
        None \<Rightarrow> True
      | Some [] \<Rightarrow> True
      | Some (candidate # _) \<Rightarrow>
          (case content candidate of
             None \<Rightarrow> True
           | Some ct \<Rightarrow>
               (case parts ct of
                  None \<Rightarrow> True
                | Some [] \<Rightarrow> True
                | Some (part # _) \<Rightarrow>
                    (case inlineData part of
                       None \<Rightarrow> True
                     | Some blob \<Rightarrow> blob_data blob = None))))"

section \<open>Example inputs\<close>

text \<open>
  An audio context with the smallest ranges the Web Audio API allows; a component state
  as the application starts with, for a given text; a response that carries one inline
  payload; an environment whose service call has a fixed outcome.
\<close>

definition example_supports :: "nat \<Rightarrow> nat \<Rightarrow> bool" where
  "example_supports c r \<longleftrightarrow> c \<le> 32 \<and> 8000 \<le> r \<and> r \<le> 96000"

definition example_context :: AudioContext where
  "example_context = \<lparr>ctx_sampleRate = 24000, ctx_supports = example_supports\<rparr>"

definition example_state :: "js_string \<Rightarrow> AppState" where
  "example_state t =
     \<lparr>inputText = t, selectedEmotion = Happy, selectedVoice = Kore, speakingRate = 1,
      isLoading = False, error = None, audioBuffer = None, audioContextRef = None\<rparr>"

definition example_response :: "js_string \<Rightarrow> GenerateContentResponse" where
  "example_response payload =
     \<lparr>candidates = Some [\<lparr>content = Some \<lparr>parts =
        Some [\<lparr>inlineData = Some \<lparr>blob_data = Some payload\<rparr>\<rparr>]\<rparr>\<rparr>]\<rparr>"

definition example_env :: "thrown + GenerateContentResponse \<Rightarrow> Environment" where
  "example_env outcome =
     \<lparr>API_KEY = Some (lit ''key''), generateContent = (\<lambda>request. outcome),
      platformMessage = (\<lambda>e. lit ''platform error''), supports = example_supports\<rparr>"

definition example_buffer :: AudioBuffer where
  "example_buffer =
     \<lparr>numberOfChannels = 1, buf_length = 2, buf_sampleRate = 24000,
      channelData = [[Num 0, Num (32767 / 32768)]]\<rparr>"

section \<open>Properties of the decoder\<close>

lemma length_int16_view: "length (int16_view b) = length b div 2"
  by (induction b rule: int16_view.induct) auto

lemma int16_view_nth:
  "k < length b div 2 \<Longrightarrow>
   int16_view b ! k = push_bit 8 (ucast (b ! (2 * k + 1))) OR ucast (b ! (2 * k))"
proof (induction b arbitrary: k rule: int16_view.induct)
  case (1 lo hi rest)
  then show ?case by (cases k) auto
qed auto

lemma uint_int16:
  "uint (push_bit 8 (ucast (hi :: 8 word)) OR ucast (lo :: 8 word) :: 16 word) =
   uint lo + 256 * uint hi"
proof -
  have lo: "uint lo < 256" using uint_bounded [of lo] by simp
  have hi: "uint hi < 256" using uint_bounded [of hi] by simp
  have "(push_bit 8 (ucast hi) OR ucast lo :: 16 word) = word_cat hi lo"
    by (simp add: word_cat_eq_push_bit_or)
  also have "uint (word_cat hi lo :: 16 word) = take_bit 16 (concat_bit 8 (uint lo) (uint hi))"
    by (simp add: word_cat_eq' uint_word_of_int_eq)
  also have "concat_bit 8 (uint lo) (uint hi) = uint lo + 256 * uint hi"
    using lo by (simp add: concat_bit_eq take_bit_eq_mod push_bit_eq_mult)
  also have "take_bit 16 (uint lo + 256 * uint hi) = uint lo + 256 * uint hi"
    using lo hi by (simp add: take_bit_eq_mod)
  finally show ?thesis .
qed

lemma sint_int16_of_uint:
  "sint (w :: 16 word) = (if uint w < 32768 then uint w else uint w - 65536)"
proof -
  have b: "0 \<le> uint w" "uint w < 65536" using uint_bounded [of w] by simp_all
  have "sint w = take_bit 16 (uint w + 32768) - 32768"
    by (simp add: sint_uint signed_take_bit_eq_take_bit_shift)
  also have "\<dots> = (uint w + 32768) mod 65536 - 32768"
    by (simp add: take_bit_eq_mod)
  also have "\<dots> = (if uint w < 32768 then uint w else uint w - 65536)"
  proof (cases "uint w < 32768")
    case True
    then have "(uint w + 32768) mod 65536 = uint w + 32768"
      using b by (simp add: mod_pos_pos_trivial)
    with True show ?thesis by simp
  next
    case False
    have "(uint w + 32768) mod 65536 = (uint w + 32768 - 65536) mod 65536"
      by (simp only: minus_mod_self2)
    also have "\<dots> = uint w + 32768 - 65536"
      using b False by (simp add: mod_pos_pos_trivial)
    finally show ?thesis using False by simp
  qed
  finally show ?thesis .
qed

declare frame_loop.simps [simp del] channel_loop.simps [simp del]

lemma frame_loop_length: "length (frame_loop d nc fc ch i a) = length a"
  by (induction d nc fc ch i a rule: frame_loop.induct)
     (subst frame_loop.simps, simp add: float32_set_def)

lemma frame_loop_nth:
  "j < length a \<Longrightarrow>
   frame_loop d nc fc ch i a ! j =
     (if i \<le> j \<and> real j < fc then div_32768 (int16_get d (j * nc + ch)) else a ! j)"
proof (induction d nc fc ch i a rule: frame_loop.induct)
  case (1 d nc fc ch i a)
  show ?case
  proof (cases "real i < fc")
    case True
    let ?a = "float32_set a i (div_32768 (int16_get d (i * nc + ch)))"
    have len: "j < length ?a" using "1.prems" by (simp add: float32_set_def)
    have "frame_loop d nc fc ch i a ! j = frame_loop d nc fc ch (i + 1) ?a ! j"
      using True by (subst frame_loop.simps) simp
    also have "\<dots> = (if i + 1 \<le> j \<and> real j < fc then div_32768 (int16_get d (j * nc + ch)) else ?a ! j)"
      using "1.IH" [OF True len] .
    finally have step: "frame_loop d nc fc ch i a ! j =
        (if i + 1 \<le> j \<and> real j < fc then div_32768 (int16_get d (j * nc + ch)) else ?a ! j)" .
    show ?thesis
    proof (cases "j = i")
      case True
      with step \<open>real i < fc\<close> "1.prems" show ?thesis by (simp add: float32_set_def)
    next
      case False
      with step "1.prems" show ?thesis by (auto simp: float32_set_def)
    qed
  next
    case False
    then have "frame_loop d nc fc ch i a = a" by (subst frame_loop.simps) simp
    moreover have "\<not> (i \<le> j \<and> real j < fc)" using False by auto
    ultimately show ?thesis by auto
  qed
qed

lemma floor_frameCount: "nat \<lfloor>real n / real nc\<rfloor> = n div nc"
  by (simp add: floor_divide_of_nat_eq)

lemma frame_in_range:
  assumes "0 < nc" "j < n div nc" "c < nc"
  shows "real j < real n / real nc" and "j * nc + c < n"
proof -
  have "Suc j * nc \<le> (n div nc) * nc"
    using assms(2) by (intro mult_le_mono1) simp
  also have "\<dots> \<le> n" by simp
  finally have le: "Suc j * nc \<le> n" .
  then show "j * nc + c < n" using assms(3) by simp
  have "j * nc < n" using le assms(1) by simp
  then have "real (j * nc) < real n" by (simp only: of_nat_less_iff)
  then show "real j < real n / real nc"
    using assms(1) by (simp add: pos_less_divide_eq)
qed

lemma channel_loop_ok:
  "nc \<le> length (channelData b) \<Longrightarrow> numberOfChannels b = length (channelData b) \<Longrightarrow>
   channel_loop d nc fc ch b = Inr (b\<lparr>channelData := fill_channels d nc fc ch (channelData b)\<rparr>)"
proof (induction d nc fc ch b rule: channel_loop.induct)
  case (1 d nc fc ch b)
  show ?case
  proof (cases "ch < nc")
    case True
    let ?a = "frame_loop d nc fc ch 0 (channelData b ! ch)"
    let ?b = "setChannelData b ch ?a"
    have get: "getChannelData b ch = Inr (channelData b ! ch)"
      using True "1.prems" by (simp add: getChannelData_def)
    have p1: "nc \<le> length (channelData ?b)" using "1.prems" by (simp add: setChannelData_def)
    have p2: "numberOfChannels ?b = length (channelData ?b)"
      using "1.prems" by (simp add: setChannelData_def)
    have "channel_loop d nc fc ch b = channel_loop d nc fc (ch + 1) ?b"
      using True get by (subst channel_loop.simps) simp
    also have "\<dots> = Inr (?b\<lparr>channelData := fill_channels d nc fc (ch + 1) (channelData ?b)\<rparr>)"
      using "1.IH" [OF True get p1 p2] .
    also have "fill_channels d nc fc (ch + 1) (channelData ?b) = fill_channels d nc fc ch (channelData b)"
    proof (rule nth_equalityI)
      show "length (fill_channels d nc fc (ch + 1) (channelData ?b)) =
            length (fill_channels d nc fc ch (channelData b))"
        by (simp add: fill_channels_def setChannelData_def)
    next
      fix c assume "c < length (fill_channels d nc fc (ch + 1) (channelData ?b))"
      then have c: "c < length (channelData b)"
        by (simp add: fill_channels_def setChannelData_def)
      have chl: "ch < length (channelData b)" using True "1.prems" by simp
      show "fill_channels d nc fc (ch + 1) (channelData ?b) ! c =
            fill_channels d nc fc ch (channelData b) ! c"
      proof (cases "c = ch")
        case True
        then show ?thesis
          using c \<open>ch < nc\<close> by (simp add: fill_channels_def setChannelData_def)
      next
        case False
        then have "(ch + 1 \<le> c) = (ch \<le> c)" by auto
        then show ?thesis
          using c False by (simp add: fill_channels_def setChannelData_def)
      qed
    qed
    finally show ?thesis by (simp add: setChannelData_def)
  next
    case False
    have "fill_channels d nc fc ch (channelData b) = channelData b"
      using False by (rule_tac nth_equalityI) (auto simp: fill_channels_def)
    moreover have "channel_loop d nc fc ch b = Inr b"
      using False by (subst channel_loop.simps) simp
    ultimately show ?thesis by simp
  qed
qed

lemma channel_loop_short:
  "length (channelData b) < nc \<Longrightarrow> ch \<le> length (channelData b) \<Longrightarrow>
   numberOfChannels b = length (channelData b) \<Longrightarrow>
   channel_loop d nc fc ch b = Inl IndexSizeError"
proof (induction d nc fc ch b rule: channel_loop.induct)
  case (1 d nc fc ch b)
  have lt: "ch < nc" using "1.prems" by simp
  show ?case
  proof (cases "ch < length (channelData b)")
    case True
    let ?a = "frame_loop d nc fc ch 0 (channelData b ! ch)"
    let ?b = "setChannelData b ch ?a"
    have get: "getChannelData b ch = Inr (channelData b ! ch)"
      using True "1.prems" by (simp add: getChannelData_def)
    have "channel_loop d nc fc ch b = channel_loop d nc fc (ch + 1) ?b"
      using lt get by (subst channel_loop.simps) simp
    also have "\<dots> = Inl IndexSizeError"
      using "1.IH" [OF lt get] True "1.prems" by (simp add: setChannelData_def)
    finally show ?thesis .
  next
    case False
    then have "getChannelData b ch = Inl IndexSizeError"
      by (simp add: getChannelData_def)
    then show ?thesis using lt by (subst channel_loop.simps) simp
  qed
qed

lemma sint_int16_view:
  "k < length b div 2 \<Longrightarrow> sint (int16_view b ! k) = int16_le b k"
  by (simp only: int16_view_nth sint_int16_of_uint uint_int16 int16_le_def Let_def)

lemma sample_value:
  assumes "0 < nc" "i < (length b div 2) div nc" "c < nc"
  shows "div_32768 (int16_get (int16_view b) (i * nc + c)) =
         Num (real_of_int (int16_le b (i * nc + c)) / 32768)"
proof -
  have k: "i * nc + c < length b div 2"
    using frame_in_range(2) [OF assms] .
  then show ?thesis
    by (simp add: int16_get_def div_32768_def length_int16_view sint_int16_view)
qed

lemma fill_fresh_channels:
  assumes nc: "0 < nc" and l: "l \<le> (length b div 2) div nc"
  shows "fill_channels (int16_view b) nc (real (length b div 2) / real nc) 0
           (replicate nc (replicate l (Num 0))) = decoded_channels b nc l"
proof (rule nth_equalityI)
  show "length (fill_channels (int16_view b) nc (real (length b div 2) / real nc) 0
           (replicate nc (replicate l (Num 0)))) = length (decoded_channels b nc l)"
    by (simp add: fill_channels_def decoded_channels_def)
next
  fix c
  assume "c < length (fill_channels (int16_view b) nc (real (length b div 2) / real nc) 0
           (replicate nc (replicate l (Num 0))))"
  then have c: "c < nc" by (simp add: fill_channels_def)
  have "frame_loop (int16_view b) nc (real (length b div 2) / real nc) c 0 (replicate l (Num 0)) =
        map (\<lambda>i. Num (real_of_int (int16_le b (i * nc + c)) / 32768)) [0..<l]"
  proof (rule nth_equalityI)
    show "length (frame_loop (int16_view b) nc (real (length b div 2) / real nc) c 0
            (replicate l (Num 0))) =
          length (map (\<lambda>i. Num (real_of_int (int16_le b (i * nc + c)) / 32768)) [0..<l])"
      by (simp add: frame_loop_length)
  next
    fix i
    assume "i < length (frame_loop (int16_view b) nc (real (length b div 2) / real nc) c 0
            (replicate l (Num 0)))"
    then have i: "i < l" by (simp add: frame_loop_length)
    then have i': "i < (length b div 2) div nc" using l by simp
    have lt: "real i < real (length b div 2) / real nc"
      using frame_in_range(1) [OF nc i' c] .
    have "frame_loop (int16_view b) nc (real (length b div 2) / real nc) c 0
            (replicate l (Num 0)) ! i =
          div_32768 (int16_get (int16_view b) (i * nc + c))"
      using i lt by (simp add: frame_loop_nth)
    also have "\<dots> = Num (real_of_int (int16_le b (i * nc + c)) / 32768)"
      using sample_value [OF nc i' c] .
    finally show "frame_loop (int16_view b) nc (real (length b div 2) / real nc) c 0
            (replicate l (Num 0)) ! i =
          map (\<lambda>i. Num (real_of_int (int16_le b (i * nc + c)) / 32768)) [0..<l] ! i"
      using i by simp
  qed
  then show "fill_channels (int16_view b) nc (real (length b div 2) / real nc) 0
           (replicate nc (replicate l (Num 0))) ! c = decoded_channels b nc l ! c"
    using c by (simp add: fill_channels_def decoded_channels_def)
qed

lemma decodePcmData_odd:
  "odd (length data) \<Longrightarrow> decodePcmData data ctx sampleRate numChannels = Inl RangeError"
  by (simp add: decodePcmData_def Int16Array_def odd_iff_mod_2_eq_one)

lemma decodePcmData_zero:
  assumes "even (length data)"
    and "numChannels mod 2 ^ 32 = 0 \<or> (length data div 2 div numChannels) mod 2 ^ 32 = 0
         \<or> sampleRate = 0 \<or> \<not> ctx_supports ctx (numChannels mod 2 ^ 32) sampleRate"
  shows "decodePcmData data ctx sampleRate numChannels = Inl NotSupportedError"
  using assms
  by (auto simp: decodePcmData_def Int16Array_def createBuffer_def unsigned_long_def
        length_int16_view floor_frameCount Let_def)

lemma decodePcmData_ok:
  assumes "even (length data)" and "0 < numChannels" and "numChannels < 2 ^ 32"
    and "0 < sampleRate" and "l = (length data div 2 div numChannels) mod 2 ^ 32" and "0 < l"
    and "ctx_supports ctx numChannels sampleRate"
  shows "decodePcmData data ctx sampleRate numChannels =
         Inr \<lparr>numberOfChannels = numChannels, buf_length = l, buf_sampleRate = sampleRate,
              channelData = decoded_channels data numChannels l\<rparr>"
proof -
  let ?fc = "real (length data div 2) / real numChannels"
  let ?b = "\<lparr>numberOfChannels = numChannels, buf_length = l, buf_sampleRate = sampleRate,
             channelData = replicate numChannels (replicate l (Num 0))\<rparr>"
  have l_le: "l \<le> length data div 2 div numChannels"
    using assms(5) by simp
  have cb: "createBuffer ctx numChannels ?fc sampleRate = Inr ?b"
    using assms by (simp add: createBuffer_def unsigned_long_def floor_frameCount Let_def)
  have loop: "channel_loop (int16_view data) numChannels ?fc 0 ?b =
        Inr (?b\<lparr>channelData := fill_channels (int16_view data) numChannels ?fc 0 (channelData ?b)\<rparr>)"
    by (rule channel_loop_ok) simp_all
  have "decodePcmData data ctx sampleRate numChannels =
        channel_loop (int16_view data) numChannels ?fc 0 ?b"
    using assms(1,2) cb
    by (simp add: decodePcmData_def Int16Array_def length_int16_view Let_def)
  also note loop
  finally show ?thesis
    using fill_fresh_channels [OF assms(2) l_le] by simp
qed

lemma decodePcmData_wide:
  assumes "even (length data)" and "2 ^ 32 \<le> numChannels" and "numChannels mod 2 ^ 32 \<noteq> 0"
    and "0 < sampleRate" and "(length data div 2 div numChannels) mod 2 ^ 32 \<noteq> 0"
    and "ctx_supports ctx (numChannels mod 2 ^ 32) sampleRate"
  shows "decodePcmData data ctx sampleRate numChannels = Inl IndexSizeError"
proof -
  let ?fc = "real (length data div 2) / real numChannels"
  let ?c = "numChannels mod 2 ^ 32"
  let ?l = "(length data div 2 div numChannels) mod 2 ^ 32"
  let ?b = "\<lparr>numberOfChannels = ?c, buf_length = ?l, buf_sampleRate = sampleRate,
             channelData = replicate ?c (replicate ?l (Num 0))\<rparr>"
  have nz: "numChannels \<noteq> 0" using assms(2) by auto
  have cb: "createBuffer ctx numChannels ?fc sampleRate = Inr ?b"
    using assms by (simp add: createBuffer_def unsigned_long_def floor_frameCount Let_def)
  have "?c < 2 ^ 32" by simp
  then have short: "?c < numChannels" using assms(2) by linarith
  have loop: "channel_loop (int16_view data) numChannels ?fc 0 ?b = Inl IndexSizeError"
    by (rule channel_loop_short) (use short in simp_all)
  have "decodePcmData data ctx sampleRate numChannels =
        channel_loop (int16_view data) numChannels ?fc 0 ?b"
    using assms(1) nz cb
    by (simp add: decodePcmData_def Int16Array_def length_int16_view Let_def)
  then show ?thesis using loop by simp
qed

lemma twos_complement_bounds:
  fixes a b :: int
  assumes "0 \<le> a" "a < 256" "0 \<le> b" "b < 256"
  shows "- 32768 \<le> (let u = a + 256 * b in if u < 32768 then u else u - 65536)"
    and "(let u = a + 256 * b in if u < 32768 then u else u - 65536) \<le> 32767"
  using assms by (auto simp: Let_def)

lemma int16_le_bounds: "- 32768 \<le> int16_le bytes k \<and> int16_le bytes k \<le> 32767"
proof -
  have lo: "uint (bytes ! (2 * k)) < 256"
    using uint_bounded [of "bytes ! (2 * k)"] by simp
  have hi: "uint (bytes ! (2 * k + 1)) < 256"
    using uint_bounded [of "bytes ! (2 * k + 1)"] by simp
  show ?thesis
    unfolding int16_le_def
    using twos_complement_bounds [OF uint_ge_0 lo uint_ge_0 hi] by blast
qed

lemma decodePcmData_Inr:
  assumes "decodePcmData data ctx sampleRate numChannels = Inr buffer"
  shows "even (length data) \<and> 0 < numChannels \<and> numChannels < 2 ^ 32 \<and> 0 < sampleRate \<and>
         ctx_supports ctx numChannels sampleRate \<and>
         0 < (length data div 2 div numChannels) mod 2 ^ 32 \<and>
         buffer = \<lparr>numberOfChannels = numChannels,
                    buf_length = (length data div 2 div numChannels) mod 2 ^ 32,
                    buf_sampleRate = sampleRate,
                    channelData = decoded_channels data numChannels
                                    ((length data div 2 div numChannels) mod 2 ^ 32)\<rparr>"
proof -
  let ?l = "(length data div 2 div numChannels) mod 2 ^ 32"
  have ev: "even (length data)"
    using assms decodePcmData_odd [of data ctx sampleRate numChannels] by auto
  have nz: "\<not> (numChannels mod 2 ^ 32 = 0 \<or> ?l = 0 \<or> sampleRate = 0 \<or>
              \<not> ctx_supports ctx (numChannels mod 2 ^ 32) sampleRate)"
  proof
    assume z: "numChannels mod 2 ^ 32 = 0 \<or> ?l = 0 \<or> sampleRate = 0 \<or>
               \<not> ctx_supports ctx (numChannels mod 2 ^ 32) sampleRate"
    have "decodePcmData data ctx sampleRate numChannels = Inl NotSupportedError"
      by (rule decodePcmData_zero [OF ev z])
    with assms show False by simp
  qed
  have small: "numChannels < 2 ^ 32"
  proof (rule ccontr)
    assume "\<not> numChannels < 2 ^ 32"
    then have "2 ^ 32 \<le> numChannels" by simp
    then have "decodePcmData data ctx sampleRate numChannels = Inl IndexSizeError"
      using nz ev by (intro decodePcmData_wide) auto
    with assms show False by simp
  qed
  have pos: "0 < numChannels" using nz by (cases "numChannels = 0") auto
  have rate: "0 < sampleRate" and l: "0 < ?l"
    using nz by simp_all
  have sup: "ctx_supports ctx numChannels sampleRate"
    using nz small by simp
  have "decodePcmData data ctx sampleRate numChannels =
        Inr \<lparr>numberOfChannels = numChannels, buf_length = ?l, buf_sampleRate = sampleRate,
             channelData = decoded_channels data numChannels ?l\<rparr>"
    by (rule decodePcmData_ok [OF ev pos small rate refl l sup])
  with assms ev pos small rate l sup show ?thesis by simp
qed

lemma replicate_2: "replicate 2 x = [x, x]"
  by (simp add: numeral_2_eq_2)

section \<open>Properties of the handler\<close>

lemma find_emotion_total:
  "\<exists>opt. find_emotion e = Some opt \<and> opt \<in> set EMOTIONS \<and> id_e opt = e"
  by (cases e) (simp_all add: find_emotion_def EMOTIONS_def)

lemma find_emotion_unique:
  "opt \<in> set EMOTIONS \<Longrightarrow> id_e opt = e \<Longrightarrow> find_emotion e = Some opt"
  by (auto simp: find_emotion_def EMOTIONS_def)

lemma inline_payload_absent: "payload_absent response \<Longrightarrow> inline_payload response = None"
proof (cases "candidates response")
  case None
  then show ?thesis by (simp add: inline_payload_def)
next
  case (Some cs)
  note cs = this
  assume absent: "payload_absent response"
  show ?thesis
  proof (cases cs)
    case Nil
    with cs show ?thesis by (simp add: inline_payload_def first_element_def)
  next
    case (Cons candidate rest)
    note cons = this
    show ?thesis
    proof (cases "content candidate")
      case None
      with cs cons show ?thesis by (simp add: inline_payload_def first_element_def)
    next
      case (Some ct)
      note ct = this
      show ?thesis
      proof (cases "parts ct")
        case None
        with cs cons ct show ?thesis by (simp add: inline_payload_def first_element_def)
      next
        case (Some ps)
        note ps = this
        show ?thesis
        proof (cases ps)
          case Nil
          with cs cons ct ps show ?thesis by (simp add: inline_payload_def first_element_def)
        next
          case (Cons part more)
          note part = this
          show ?thesis
          proof (cases "inlineData part")
            case None
            with cs cons ct ps part show ?thesis
              by (simp add: inline_payload_def first_element_def)
          next
            case (Some blob)
            with absent cs cons ct ps part have "blob_data blob = None"
              by (simp add: payload_absent_def)
            with Some cs cons ct ps part show ?thesis
              by (simp add: inline_payload_def first_element_def)
          qed
        qed
      qed
    qed
  qed
qed

lemma trim_all_whitespace: "\<forall>c \<in> set s. is_js_whitespace c \<Longrightarrow> trim s = []"
proof -
  assume "\<forall>c \<in> set s. is_js_whitespace c"
  then have d: "dropWhile is_js_whitespace s = []" by simp
  show ?thesis unfolding trim_def d by simp
qed

lemma handleGenerateSpeech_valid:
  assumes "trim (inputText st) \<noteq> []" and "API_KEY env = Some key" and "key \<noteq> []"
  shows "handleGenerateSpeech env st =
     (case try_block env key (in_flight st) of
        (Inl err, st', sent) \<Rightarrow>
          (st'\<lparr>error := Some (catch_message env err), isLoading := False\<rparr>, sent)
      | (Inr u, st', sent) \<Rightarrow> (st'\<lparr>isLoading := False\<rparr>, sent))"
  using assms by (simp add: handleGenerateSpeech_def)

lemma try_block_found:
  assumes "opt \<in> set EMOTIONS" and "id_e opt = selectedEmotion st"
  shows "try_block env key (in_flight st) =
     (let request = speech_request key (promptPrefix opt @ lit '': '' @ inputText st) st
      in (case generateContent env request of
            Inl e \<Rightarrow> (Inl e, in_flight st, [request])
          | Inr response \<Rightarrow>
              (case inline_payload response of
                 None \<Rightarrow>
                   (Inl (Error (lit ''No audio data received from the API.'')), in_flight st,
                    [request])
               | Some base64Audio \<Rightarrow>
                   if base64Audio = []
                   then (Inl (Error (lit ''No audio data received from the API.'')), in_flight st,
                         [request])
                   else
                     let ctx = (case audioContextRef st of
                                  None \<Rightarrow>
                                    \<lparr>ctx_sampleRate = 24000, ctx_supports = supports env\<rparr>
                                | Some c \<Rightarrow> c);
                         st1 = (in_flight st)\<lparr>audioContextRef := Some ctx\<rparr>
                     in (case decodeBase64 base64Audio of
                           Inl e \<Rightarrow> (Inl (PlatformError e), st1, [request])
                         | Inr audioBytes \<Rightarrow>
                             (case decodePcmData audioBytes ctx 24000 1 of
                                Inl e \<Rightarrow> (Inl (PlatformError e), st1, [request])
                              | Inr decodedBuffer \<Rightarrow>
                                  (Inr (), st1\<lparr>audioBuffer := Some decodedBuffer\<rparr>,
                                   [request]))))))"
proof -
  have f: "find_emotion (selectedEmotion (in_flight st)) = Some opt"
    using find_emotion_unique [OF assms] by (simp add: in_flight_def)
  have s: "speech_request key p (in_flight st) = speech_request key p st" for p
    by (simp add: speech_request_def in_flight_def)
  have t: "inputText (in_flight st) = inputText st"
    "audioContextRef (in_flight st) = audioContextRef st"
    by (simp_all add: in_flight_def)
  show ?thesis
    unfolding try_block_def f s t by simp
qed

text \<open>
  A run that passes the input check ends with \<open>isLoading\<close> false and exactly one of the
  error message and the audio buffer set; one that fails it only sets the error message.
\<close>

lemma handleGenerateSpeech_settles:
  assumes "trim (inputText st) \<noteq> []" and "API_KEY env = Some key" and "key \<noteq> []"
  shows "\<not> isLoading (fst (handleGenerateSpeech env st)) \<and>
         (error (fst (handleGenerateSpeech env st)) = None) \<noteq>
           (audioBuffer (fst (handleGenerateSpeech env st)) = None)"
proof -
  obtain opt where opt: "opt \<in> set EMOTIONS" "id_e opt = selectedEmotion st"
    using find_emotion_total [of "selectedEmotion st"] by blast
  show ?thesis
    unfolding handleGenerateSpeech_valid [OF assms] try_block_found [OF opt]
    by (simp add: Let_def in_flight_def split: sum.split option.split)
qed

lemma handleGenerateSpeech_early:
  assumes "trim (inputText st) = [] \<or> API_KEY env = None \<or> API_KEY env = Some []"
  shows "fst (handleGenerateSpeech env st) =
           st\<lparr>error := Some (lit ''Please enter text and ensure your API key is configured.'')\<rparr>"
  using assms by (simp add: handleGenerateSpeech_def)

text \<open>
  The invariant of the life cycle: nothing but \<open>isLoading\<close> is set while a request is
  awaited, the error and the buffer are never both set, and without a key no buffer is
  ever set.
\<close>

lemma lifecycle_invariant:
  assumes "lifecycle key st"
  shows "(isLoading st \<longrightarrow> error st = None \<and> audioBuffer st = None) \<and>
         (error st = None \<or> audioBuffer st = None) \<and>
         (key = None \<or> key = Some [] \<longrightarrow> audioBuffer st = None)"
  using assms
proof (induction rule: lifecycle.induct)
  case initial
  show ?case by (simp add: initial_state_def)
next
  case (setText st t)
  then show ?case by simp
next
  case (setSelectedEmotion st e)
  then show ?case by simp
next
  case (setSelectedVoice st v)
  then show ?case by simp
next
  case (setSpeakingRate st r)
  then show ?case by simp
next
  case (awaiting st k)
  show ?case by (simp add: in_flight_def)
next
  case (generate st env)
  show ?case
  proof (cases "key = None \<or> key = Some []")
    case True
    then have early: "fst (handleGenerateSpeech env st) =
        st\<lparr>error := Some (lit ''Please enter text and ensure your API key is configured.'')\<rparr>"
      using generate.hyps(4) by (intro handleGenerateSpeech_early) auto
    have "audioBuffer st = None" using generate.IH True by blast
    then show ?thesis
      unfolding early using generate.hyps(2) by simp
  next
    case False
    then obtain k where k: "API_KEY env = Some k" "k \<noteq> []"
      using generate.hyps(4) by (cases key) auto
    have settled: "\<not> isLoading (fst (handleGenerateSpeech env st)) \<and>
        (error (fst (handleGenerateSpeech env st)) = None) \<noteq>
          (audioBuffer (fst (handleGenerateSpeech env st)) = None)"
      using handleGenerateSpeech_settles [of st env k] generate.hyps(3) k by simp
    then show ?thesis using False by auto
  qed
qed

lemma request_states_cases:
  assumes "isLoading st \<longrightarrow> error st = None \<and> audioBuffer st = None"
    and "error st = None \<or> audioBuffer st = None"
  shows "length (request_states st) = 1"
    and "isLoading st \<longrightarrow> request_states st = [InFlight]"
  using assms by (auto simp: request_states_def split: option.splits)

text \<open>The definitions that evaluate the handler on a concrete input.\<close>

lemmas handler_eval =
  handleGenerateSpeech_def try_block_def in_flight_def catch_message_def speech_request_def
  find_emotion_def EMOTIONS_def inline_payload_def first_element_def trim_def
  is_js_whitespace_def lit_def
  example_state_def example_response_def example_env_def example_buffer_def

lemmas base64_eval =
  decodeBase64_def atob_def strip_padding_def is_ascii_whitespace_def base64_value_def
  uint8_set_def bytes_loop.simps

section \<open>Claims about the PCM decoder\<close>

text \<open>The definitions that evaluate the decoder on a concrete input.\<close>

lemmas decoder_eval =
  decodePcmData_def Int16Array_def createBuffer_def unsigned_long_def getChannelData_def
  setChannelData_def float32_set_def div_32768_def int16_get_def Let_def
  frame_loop.simps channel_loop.simps replicate_2 example_context_def example_supports_def

text \<open>
  C1, as stated, fails: a payload whose length is not a multiple of \<open>2 * numChannels\<close> is
  not always truncated. With one channel such a length is odd, and the \<open>Int16Array\<close> view
  of three bytes raises a \<open>RangeError\<close>; with two channels, a payload of two bytes holds
  no whole frame, and \<open>createBuffer\<close> raises a \<open>NotSupportedError\<close> for the length 0;
  so it does for 33 channels on a context that supports 32.
\<close>

theorem decodePcmData_odd_counterexample:
  "length [1, 2, 3 :: 8 word] mod (2 * 1) \<noteq> 0 \<and>
   decodePcmData [1, 2, 3] example_context 24000 1 = Inl RangeError \<and>
   length [1, 2 :: 8 word] mod (2 * 2) \<noteq> 0 \<and>
   decodePcmData [1, 2] example_context 24000 2 = Inl NotSupportedError \<and>
   length (replicate 134 (0 :: 8 word)) mod (2 * 33) \<noteq> 0 \<and>
   decodePcmData (replicate 134 0) example_context 24000 33 = Inl NotSupportedError"
proof -
  have "decodePcmData (replicate 134 0) example_context 24000 33 = Inl NotSupportedError"
    by (rule decodePcmData_zero) (simp_all add: example_context_def example_supports_def)
  then show ?thesis
    by (simp add: decoder_eval)
qed

text \<open>
  C1, amended: for a payload whose length is not a multiple of \<open>2 * numChannels\<close> (channel
  count positive and below \<open>2 ^ 32\<close>, sample rate positive, both in the nominal ranges of
  the audio context), the decoder truncates to
  \<open>length div (2 * numChannels)\<close> frames per channel without raising when the length is
  even and holds at least one whole frame (fewer than \<open>2 ^ 32\<close> frames); it raises a
  \<open>RangeError\<close> when the length is odd, and a \<open>NotSupportedError\<close> when the length is
  even and below one frame.
\<close>

theorem decodePcmData_truncates:
  assumes "length data mod (2 * numChannels) \<noteq> 0"
    and "0 < numChannels" and "numChannels < 2 ^ 32" and "0 < sampleRate"
    and "ctx_supports ctx numChannels sampleRate"
  shows "(even (length data) \<and> 2 * numChannels \<le> length data \<and>
          length data div (2 * numChannels) < 2 ^ 32 \<longrightarrow>
            (\<exists>buffer. decodePcmData data ctx sampleRate numChannels = Inr buffer \<and>
               buf_length buffer = length data div (2 * numChannels) \<and>
               length (channelData buffer) = numChannels \<and>
               (\<forall>channel \<in> set (channelData buffer).
                  length channel = length data div (2 * numChannels)))) \<and>
         (odd (length data) \<longrightarrow>
            decodePcmData data ctx sampleRate numChannels = Inl RangeError) \<and>
         (even (length data) \<and> length data < 2 * numChannels \<longrightarrow>
            decodePcmData data ctx sampleRate numChannels = Inl NotSupportedError)"
proof (intro conjI impI)
  assume a: "even (length data) \<and> 2 * numChannels \<le> length data \<and>
             length data div (2 * numChannels) < 2 ^ 32"
  let ?l = "length data div (2 * numChannels)"
  have eq: "length data div 2 div numChannels = ?l"
    by (simp add: div_mult2_eq)
  have "0 < ?l"
    using a assms(2) by (simp add: div_greater_zero_iff)
  then have l: "0 < ?l mod 2 ^ 32" and l': "?l = (length data div 2 div numChannels) mod 2 ^ 32"
    using a eq by simp_all
  have "decodePcmData data ctx sampleRate numChannels =
        Inr \<lparr>numberOfChannels = numChannels, buf_length = ?l, buf_sampleRate = sampleRate,
             channelData = decoded_channels data numChannels ?l\<rparr>"
    using a l by (intro decodePcmData_ok [OF _ assms(2,3,4) l' _ assms(5)]) simp_all
  then show "\<exists>buffer. decodePcmData data ctx sampleRate numChannels = Inr buffer \<and>
               buf_length buffer = ?l \<and> length (channelData buffer) = numChannels \<and>
               (\<forall>channel \<in> set (channelData buffer). length channel = ?l)"
    by (auto simp: decoded_channels_def)
next
  assume "odd (length data)"
  then show "decodePcmData data ctx sampleRate numChannels = Inl RangeError"
    by (rule decodePcmData_odd)
next
  assume a: "even (length data) \<and> length data < 2 * numChannels"
  then have "length data div 2 div numChannels = 0"
    using assms(2) by (simp add: div_mult2_eq [symmetric])
  then show "decodePcmData data ctx sampleRate numChannels = Inl NotSupportedError"
    using a by (intro decodePcmData_zero) simp_all
qed

text \<open>The amended C1 at six bytes and two channels: one frame per channel.\<close>

theorem decodePcmData_truncates_witness:
  "\<exists>buffer. decodePcmData [0, 0x80, 0xFF, 0x7F, 1, 0] example_context 24000 2 = Inr buffer \<and>
     buf_length buffer = 1 \<and> length (channelData buffer) = 2"
  using decodePcmData_truncates [of "[0, 0x80, 0xFF, 0x7F, 1, 0]" 2 24000 example_context]
  by (auto simp: example_context_def example_supports_def)


text \<open>
  C2: when the decoder returns a buffer, the sample of channel \<open>c\<close> (below
  \<open>numChannels\<close>) at frame \<open>i\<close> (below the length of the buffer) is the signed 16-bit
  little-endian integer at interleaved position \<open>i * numChannels + c\<close> of the byte stream,
  divided by 32768; both bytes of that integer lie inside the stream.
\<close>

theorem decodePcmData_sample:
  assumes "decodePcmData data ctx sampleRate numChannels = Inr buffer"
    and "c < numChannels" and "i < buf_length buffer"
  shows "c < length (channelData buffer) \<and> i < length (channelData buffer ! c) \<and>
         2 * (i * numChannels + c) + 1 < length data \<and>
         channelData buffer ! c ! i =
           Num (real_of_int (int16_le data (i * numChannels + c)) / 32768)"
proof -
  let ?l = "(length data div 2 div numChannels) mod 2 ^ 32"
  from decodePcmData_Inr [OF assms(1)]
  have ev: "even (length data)" and pos: "0 < numChannels"
    and buf: "buffer = \<lparr>numberOfChannels = numChannels, buf_length = ?l,
                buf_sampleRate = sampleRate,
                channelData = decoded_channels data numChannels ?l\<rparr>"
    by simp_all
  have i: "i < ?l" using assms(3) buf by simp
  have "?l \<le> length data div 2 div numChannels" by simp
  with i have i': "i < length data div 2 div numChannels" by linarith
  have "i * numChannels + c < length data div 2"
    using frame_in_range(2) [OF pos i' assms(2)] .
  then have pos_ok: "2 * (i * numChannels + c) + 1 < length data"
    using ev by (auto elim!: evenE)
  show ?thesis
    using buf i assms(2) pos_ok by (simp add: decoded_channels_def)
qed

text \<open>C2 at six bytes and two channels: channel 1, frame 0 holds \<open>0x7FFF / 32768\<close>.\<close>

theorem decodePcmData_sample_witness:
  "decodePcmData [0, 0x80, 0xFF, 0x7F, 1, 0] example_context 24000 2 =
     Inr \<lparr>numberOfChannels = 2, buf_length = 1, buf_sampleRate = 24000,
          channelData = [[Num (- 1)], [Num (32767 / 32768)]]\<rparr> \<and>
   (1 :: nat) < 2 \<and> (0 :: nat) < 1 \<and>
   [[Num (- 1)], [Num (32767 / 32768)]] ! 1 ! 0 =
     Num (real_of_int (int16_le [0, 0x80, 0xFF, 0x7F, 1, 0] (0 * 2 + 1)) / 32768)"
proof -
  have run: "decodePcmData [0, 0x80, 0xFF, 0x7F, 1, 0] example_context 24000 2 =
      Inr \<lparr>numberOfChannels = 2, buf_length = 1, buf_sampleRate = 24000,
           channelData = [[Num (- 1)], [Num (32767 / 32768)]]\<rparr>"
    by (simp add: decoder_eval)
  show ?thesis
    using run decodePcmData_sample [OF run, of 1 0] by simp
qed

text \<open>
  C3, as stated, fails at \<open>N = 0\<close>: the empty payload has \<open>2 * numChannels * 0\<close> bytes, and
  \<open>createBuffer\<close> raises a \<open>NotSupportedError\<close> for the length 0 instead of returning
  arrays of length 0. It fails as well where a count reaches \<open>2 ^ 32\<close> (the
  \<open>unsigned long\<close> arguments of \<open>createBuffer\<close> wrap to 0), and for 33 channels on a
  context that supports 32.
\<close>

theorem decodePcmData_empty_counterexample:
  "length ([] :: 8 word list) = 2 * 1 * 0 \<and>
   decodePcmData [] example_context 24000 1 = Inl NotSupportedError \<and>
   length (replicate (2 ^ 33) (0 :: 8 word)) = 2 * 1 * 2 ^ 32 \<and>
   decodePcmData (replicate (2 ^ 33) 0) example_context 24000 1 =
     Inl NotSupportedError \<and>
   length (replicate (2 ^ 33) (0 :: 8 word)) = 2 * 2 ^ 32 * 1 \<and>
   decodePcmData (replicate (2 ^ 33) 0) example_context 24000 (2 ^ 32) =
     Inl NotSupportedError \<and>
   length (replicate 132 (0 :: 8 word)) = 2 * 33 * 2 \<and>
   decodePcmData (replicate 132 0) example_context 24000 33 = Inl NotSupportedError"
proof -
  have "decodePcmData [] example_context 24000 1 = Inl NotSupportedError"
    by (rule decodePcmData_zero) simp_all
  moreover have "decodePcmData (replicate (2 ^ 33) 0) example_context 24000 1 =
      Inl NotSupportedError"
    by (rule decodePcmData_zero) simp_all
  moreover have "decodePcmData (replicate (2 ^ 33) 0) example_context 24000 (2 ^ 32) =
      Inl NotSupportedError"
    by (rule decodePcmData_zero) simp_all
  moreover have "decodePcmData (replicate 132 0) example_context 24000 33 = Inl NotSupportedError"
    by (rule decodePcmData_zero) (simp_all add: example_context_def example_supports_def)
  ultimately show ?thesis by simp
qed

text \<open>
  C3, amended: for \<open>N\<close> and \<open>numChannels\<close> from 1 to \<open>2 ^ 32 - 1\<close> and a positive sample
  rate, the channel count and the rate being in the nominal ranges of the audio context,
  decoding a payload of exactly \<open>2 * numChannels * N\<close> bytes returns a buffer of
  \<open>numChannels\<close> per-channel arrays, each of exactly \<open>N\<close> frames, at the given sample rate.
\<close>

theorem decodePcmData_whole_frames:
  assumes "length data = 2 * numChannels * N"
    and "0 < N" and "N < 2 ^ 32"
    and "0 < numChannels" and "numChannels < 2 ^ 32" and "0 < sampleRate"
    and "ctx_supports ctx numChannels sampleRate"
  shows "\<exists>buffer. decodePcmData data ctx sampleRate numChannels = Inr buffer \<and>
           numberOfChannels buffer = numChannels \<and> buf_length buffer = N \<and>
           buf_sampleRate buffer = sampleRate \<and>
           length (channelData buffer) = numChannels \<and>
           (\<forall>channel \<in> set (channelData buffer). length channel = N)"
proof -
  have ev: "even (length data)" using assms(1) by simp
  have "length data div 2 div numChannels = N"
    using assms(1,4) by simp
  then have l: "N = (length data div 2 div numChannels) mod 2 ^ 32"
    using assms(3) by simp
  have "decodePcmData data ctx sampleRate numChannels =
        Inr \<lparr>numberOfChannels = numChannels, buf_length = N, buf_sampleRate = sampleRate,
             channelData = decoded_channels data numChannels N\<rparr>"
    by (rule decodePcmData_ok [OF ev assms(4,5,6) l assms(2) assms(7)])
  then show ?thesis by (auto simp: decoded_channels_def)
qed

text \<open>The amended C3 at four bytes and one channel: \<open>N = 2\<close>.\<close>

theorem decodePcmData_whole_frames_witness:
  "\<exists>buffer. decodePcmData [0, 0x80, 0xFF, 0x7F] example_context 24000 1 = Inr buffer \<and>
     numberOfChannels buffer = 1 \<and> buf_length buffer = 2 \<and> buf_sampleRate buffer = 24000 \<and>
     length (channelData buffer) = 1"
  using decodePcmData_whole_frames [of "[0, 0x80, 0xFF, 0x7F]" 1 2 24000 example_context]
  by (auto simp: example_context_def example_supports_def)

text \<open>
  C4: every sample of a decoded buffer is a number (never \<open>NaN\<close>) in the half-open range
  from -1 to 1 and at most \<open>32767 / 32768\<close>; -1 is produced from the 16-bit value -32768
  (bytes \<open>00 80\<close>) and \<open>32767 / 32768\<close> from 32767 (bytes \<open>FF 7F\<close>).
\<close>

theorem decodePcmData_range:
  "(decodePcmData data ctx sampleRate numChannels = Inr buffer \<longrightarrow>
      (\<forall>channel \<in> set (channelData buffer). \<forall>s \<in> set channel.
         \<exists>r. s = Num r \<and> - 1 \<le> r \<and> r < 1 \<and> r \<le> 32767 / 32768)) \<and>
   decodePcmData [0x00, 0x80] example_context 24000 1 =
     Inr \<lparr>numberOfChannels = 1, buf_length = 1, buf_sampleRate = 24000,
          channelData = [[Num (- 1)]]\<rparr> \<and>
   decodePcmData [0xFF, 0x7F] example_context 24000 1 =
     Inr \<lparr>numberOfChannels = 1, buf_length = 1, buf_sampleRate = 24000,
          channelData = [[Num (32767 / 32768)]]\<rparr>"
proof (intro conjI impI ballI)
  fix channel s
  assume run: "decodePcmData data ctx sampleRate numChannels = Inr buffer"
    and ch: "channel \<in> set (channelData buffer)" and s: "s \<in> set channel"
  let ?l = "(length data div 2 div numChannels) mod 2 ^ 32"
  from decodePcmData_Inr [OF run]
  have "channelData buffer = decoded_channels data numChannels ?l" by simp
  with ch s obtain k where sk: "s = Num (real_of_int (int16_le data k) / 32768)"
    by (auto simp: decoded_channels_def)
  have b: "- 32768 \<le> int16_le data k" "int16_le data k \<le> 32767"
    using int16_le_bounds [of data k] by simp_all
  have "- 32768 \<le> real_of_int (int16_le data k)" "real_of_int (int16_le data k) \<le> 32767"
    using b by linarith+
  then have "- 1 \<le> real_of_int (int16_le data k) / 32768 \<and>
             real_of_int (int16_le data k) / 32768 < 1 \<and>
             real_of_int (int16_le data k) / 32768 \<le> 32767 / 32768"
    by (simp add: field_simps)
  with sk show "\<exists>r. s = Num r \<and> - 1 \<le> r \<and> r < 1 \<and> r \<le> 32767 / 32768" by blast
next
  show "decodePcmData [0x00, 0x80] example_context 24000 1 =
     Inr \<lparr>numberOfChannels = 1, buf_length = 1, buf_sampleRate = 24000,
          channelData = [[Num (- 1)]]\<rparr>"
    by (simp add: decoder_eval replicate_2)
next
  show "decodePcmData [0xFF, 0x7F] example_context 24000 1 =
     Inr \<lparr>numberOfChannels = 1, buf_length = 1, buf_sampleRate = 24000,
          channelData = [[Num (32767 / 32768)]]\<rparr>"
    by (simp add: decoder_eval replicate_2)
qed

text \<open>C4 at six bytes and two channels.\<close>

theorem decodePcmData_range_witness:
  "decodePcmData [0, 0x80, 0xFF, 0x7F, 1, 0] example_context 24000 2 =
     Inr \<lparr>numberOfChannels = 2, buf_length = 1, buf_sampleRate = 24000,
          channelData = [[Num (- 1)], [Num (32767 / 32768)]]\<rparr> \<and>
   (\<exists>r. Num (- 1) = Num r \<and> - 1 \<le> r \<and> r < 1 \<and> r \<le> 32767 / 32768) \<and>
   (\<exists>r. Num (32767 / 32768) = Num r \<and> - 1 \<le> r \<and> r < 1 \<and> r \<le> 32767 / 32768)"
proof -
  have run: "decodePcmData [0, 0x80, 0xFF, 0x7F, 1, 0] example_context 24000 2 =
      Inr \<lparr>numberOfChannels = 2, buf_length = 1, buf_sampleRate = 24000,
           channelData = [[Num (- 1)], [Num (32767 / 32768)]]\<rparr>"
    by (simp add: decoder_eval)
  from decodePcmData_range [of "[0, 0x80, 0xFF, 0x7F, 1, 0]" example_context 24000 2
      "\<lparr>numberOfChannels = 2, buf_length = 1, buf_sampleRate = 24000,
           channelData = [[Num (- 1)], [Num (32767 / 32768)]]\<rparr>"] run
  show ?thesis by simp
qed

section \<open>Claims about handleGenerateSpeech\<close>

text \<open>
  C5: when the text is empty after trimming (in particular when it consists of white space
  only) or \<open>process.env.API_KEY\<close> is absent, the handler only sets the error message of
  the input check and returns: the list of requests sent to the service is empty, and the
  rest of the state is untouched.
\<close>

theorem handleGenerateSpeech_invalid_input:
  assumes "trim (inputText st) = [] \<or> (\<forall>c \<in> set (inputText st). is_js_whitespace c) \<or>
           API_KEY env = None"
  shows "handleGenerateSpeech env st =
           (st\<lparr>error := Some (lit ''Please enter text and ensure your API key is configured.'')\<rparr>,
            [])"
proof -
  have "trim (inputText st) = [] \<or> API_KEY env = None"
    using assms trim_all_whitespace [of "inputText st"] by auto
  then show ?thesis
    by (auto simp: handleGenerateSpeech_def)
qed


text \<open>C5 at a text of two spaces: the error of the input check, and no request.\<close>

theorem handleGenerateSpeech_invalid_input_witness:
  "trim (inputText (example_state (lit ''  ''))) = [] \<and>
   handleGenerateSpeech (example_env (Inl (Other []))) (example_state (lit ''  '')) =
     ((example_state (lit ''  ''))
        \<lparr>error := Some (lit ''Please enter text and ensure your API key is configured.'')\<rparr>,
      [])"
proof -
  have blank: "trim (inputText (example_state (lit ''  ''))) = []"
    by (simp add: handler_eval)
  show ?thesis
    using blank
      handleGenerateSpeech_invalid_input [OF disjI1, OF blank, of "example_env (Inl (Other []))"]
    by simp
qed

text \<open>
  C6: at every point of the life cycle of the component (the states between runs, the
  state while a request is awaited and the state a run ends in) the state variables
  represent exactly one request state, the one in flight while \<open>isLoading\<close> holds; in
  particular the error message and the audio buffer are never both set.
\<close>

theorem lifecycle_one_request_state:
  assumes "lifecycle key st"
  shows "length (request_states st) = 1 \<and>
         (isLoading st \<longrightarrow> request_states st = [InFlight]) \<and>
         (error st = None \<or> audioBuffer st = None)"
proof -
  from lifecycle_invariant [OF assms]
  have inv: "isLoading st \<longrightarrow> error st = None \<and> audioBuffer st = None"
    "error st = None \<or> audioBuffer st = None"
    by simp_all
  show ?thesis
    using request_states_cases [OF inv] inv(2) by simp
qed

text \<open>C6 at the state after a first run whose service call answers with four bytes of audio.\<close>

theorem lifecycle_one_request_state_witness:
  "lifecycle (Some (lit ''key''))
     (fst (handleGenerateSpeech (example_env (Inr (example_response (lit ''AAD/fw==''))))
             initial_state)) \<and>
   length (request_states
     (fst (handleGenerateSpeech (example_env (Inr (example_response (lit ''AAD/fw==''))))
             initial_state))) = 1"
proof -
  have idle: "\<not> isLoading initial_state"
    by (simp add: initial_state_def)
  have nonblank: "trim (inputText initial_state) \<noteq> []"
    by (simp add: initial_state_def trim_def is_js_whitespace_def lit_def)
  have keyed: "API_KEY (example_env (Inr (example_response (lit ''AAD/fw==''))))
      = Some (lit ''key'')"
    by (simp add: example_env_def)
  have run: "lifecycle (Some (lit ''key''))
     (fst (handleGenerateSpeech (example_env (Inr (example_response (lit ''AAD/fw==''))))
             initial_state))"
    by (rule lifecycle.generate [OF lifecycle.initial idle nonblank keyed])
  show ?thesis
    using run lifecycle_one_request_state [OF run] by simp
qed

text \<open>
  C7: when the run passes the input check and the service answers with a response whose
  inline payload is absent (no candidates, no content, no parts or no inline data), the
  handler ends with the error \<open>No audio data received from the API.\<close> and no audio
  buffer. Nothing else of the state changes: in particular no audio context is created,
  which the code does just before it decodes.
\<close>

theorem handleGenerateSpeech_empty_response:
  assumes "trim (inputText st) \<noteq> []" and "API_KEY env = Some key" and "key \<noteq> []"
    and "opt \<in> set EMOTIONS" and "id_e opt = selectedEmotion st"
    and "generateContent env
           (speech_request key (promptPrefix opt @ lit '': '' @ inputText st) st) = Inr response"
    and "payload_absent response"
  shows "handleGenerateSpeech env st =
           (st\<lparr>isLoading := False,
               error := Some (lit ''No audio data received from the API.''),
               audioBuffer := None\<rparr>,
            [speech_request key (promptPrefix opt @ lit '': '' @ inputText st) st])"
proof -
  have none: "inline_payload response = None"
    using assms(7) by (rule inline_payload_absent)
  show ?thesis
    unfolding handleGenerateSpeech_valid [OF assms(1,2,3)] try_block_found [OF assms(4,5)]
    using assms(6) none
    by (simp add: Let_def in_flight_def catch_message_def)
qed

text \<open>C7 at a response with an empty list of candidates.\<close>

theorem handleGenerateSpeech_empty_response_witness:
  "handleGenerateSpeech (example_env (Inr \<lparr>candidates = Some []\<rparr>)) (example_state (lit ''Hi'')) =
     ((example_state (lit ''Hi''))
        \<lparr>isLoading := False,
          error := Some (lit ''No audio data received from the API.''),
          audioBuffer := None\<rparr>,
      [speech_request (lit ''key'') (lit ''Say cheerfully'' @ lit '': '' @ lit ''Hi'')
         (example_state (lit ''Hi''))])"
proof -
  have pre: "trim (inputText (example_state (lit ''Hi''))) \<noteq> []"
    "API_KEY (example_env (Inr \<lparr>candidates = Some []\<rparr>)) = Some (lit ''key'')"
    "lit ''key'' \<noteq> []"
    by (simp_all add: handler_eval)
  have opt: "\<lparr>id_e = Happy, label = lit ''Happy'', promptPrefix = lit ''Say cheerfully''\<rparr>
               \<in> set EMOTIONS"
    "id_e \<lparr>id_e = Happy, label = lit ''Happy'', promptPrefix = lit ''Say cheerfully''\<rparr> =
       selectedEmotion (example_state (lit ''Hi''))"
    by (simp_all add: EMOTIONS_def example_state_def)
  have call: "generateContent (example_env (Inr \<lparr>candidates = Some []\<rparr>))
      (speech_request (lit ''key'')
         (promptPrefix \<lparr>id_e = Happy, label = lit ''Happy'', promptPrefix = lit ''Say cheerfully''\<rparr>
            @ lit '': '' @ inputText (example_state (lit ''Hi'')))
         (example_state (lit ''Hi''))) = Inr \<lparr>candidates = Some []\<rparr>"
    by (simp add: example_env_def)
  have absent: "payload_absent \<lparr>candidates = Some []\<rparr>"
    by (simp add: payload_absent_def)
  show ?thesis
    using handleGenerateSpeech_empty_response [OF pre opt call absent]
    by (simp add: example_state_def)
qed

text \<open>
  C8: a run that passes the input check sends exactly one request, and its prompt is the
  prompt prefix of the option of \<open>EMOTIONS\<close> that has the selected emotion as id, followed
  by a colon, a space and the text as entered (not trimmed).
\<close>

theorem handleGenerateSpeech_prompt:
  assumes "trim (inputText st) \<noteq> []" and "API_KEY env = Some key" and "key \<noteq> []"
  shows "\<exists>opt request. opt \<in> set EMOTIONS \<and> id_e opt = selectedEmotion st \<and>
           snd (handleGenerateSpeech env st) = [request] \<and>
           req_prompt request = promptPrefix opt @ lit '': '' @ inputText st"
proof -
  obtain opt where opt: "opt \<in> set EMOTIONS" "id_e opt = selectedEmotion st"
    using find_emotion_total [of "selectedEmotion st"] by blast
  let ?request = "speech_request key (promptPrefix opt @ lit '': '' @ inputText st) st"
  have "snd (handleGenerateSpeech env st) = [?request]"
    unfolding handleGenerateSpeech_valid [OF assms] try_block_found [OF opt]
    by (simp add: Let_def split: sum.split option.split)
  moreover have "req_prompt ?request = promptPrefix opt @ lit '': '' @ inputText st"
    by (simp add: speech_request_def)
  ultimately show ?thesis using opt by blast
qed

text \<open>C8 at the text \<open>Hi\<close> with the emotion \<open>Happy\<close>.\<close>

theorem handleGenerateSpeech_prompt_witness:
  "\<exists>opt request. opt \<in> set EMOTIONS \<and>
     id_e opt = selectedEmotion (example_state (lit ''Hi'')) \<and>
     snd (handleGenerateSpeech (example_env (Inl (Other []))) (example_state (lit ''Hi''))) =
       [request] \<and>
     req_prompt request = promptPrefix opt @ lit '': '' @ inputText (example_state (lit ''Hi''))"
proof -
  have pre: "trim (inputText (example_state (lit ''Hi''))) \<noteq> []"
    "API_KEY (example_env (Inl (Other []))) = Some (lit ''key'')"
    "lit ''key'' \<noteq> []"
    by (simp_all add: handler_eval)
  show ?thesis
    by (rule handleGenerateSpeech_prompt [OF pre])
qed





text \<open>
  C10: for every value of \<open>Emotion\<close>, the table \<open>EMOTIONS\<close> has exactly one option with that
  id, and the lookup of the handler finds it, so the branch that throws
  \<open>Invalid emotion selected.\<close> is not taken.
\<close>

theorem EMOTIONS_exactly_one:
  "length (filter (\<lambda>opt. id_e opt = e) EMOTIONS) = 1 \<and>
   (\<exists>opt. find_emotion e = Some opt \<and> id_e opt = e)"
  by (cases e) (simp_all add: find_emotion_def EMOTIONS_def)


end
